theory Spec2Isabelle
  imports Main
begin

section \<open>The interview page of frontend/script.js as an event-driven state machine\<close>

text \<open>
  The script registers handlers on DOM controls and keeps three variables
  (\<open>interviewId\<close>, \<open>isAIReplying\<close>, \<open>recognition\<close>). Every handler runs to its next
  \<open>await\<close> without interruption; the awaited network answer or the end of an audio
  clip arrives later as an event of its own. The model follows that: the state holds
  the variables, the DOM properties the script reads or writes, the suspended
  \<open>async\<close> calls with what they do when resumed, and a chronological log of what the
  script did to the outside. One event is one handler invocation or one completion.
  A click stands for the invocation of its handler; the browser delivers no click to
  a disabled or hidden control, which only removes runs. A start or chat answer that
  cannot be parsed, or that is not an object, counts as a failure of the request: the
  script throws into the same \<open>catch\<close> block before it has changed anything.

  Strings are lists of code units below 256. The page markup is not among the
  sources, so DOM properties start at their defaults.
\<close>

subsection \<open>Data\<close>

datatype sender = User | AI

text \<open>The JSON body of a start or chat answer (\<open>data\<close> in the script).\<close>

record reply =
  interview_id :: int
  response :: string
  interview_over :: bool
  final_evaluation :: "string option"

datatype request =
  StartReq string string
| ChatReq "int option" string
| SpeakReq string

datatype label = SpeakLabel | StopLabel

text \<open>What a handler did, in the order it did it.\<close>

datatype effect =
  Appended sender string
| Fetch request
| Alert string
| ConsoleError string
| Navigate string
| InputSet string
| ControlsSet bool
| RecStart
| RecStop
| AudioPlay

text \<open>
  A suspended \<open>async\<close> call. \<open>processAndDisplayAIResponse\<close> is awaited by the start
  handler or by \<open>sendMessage\<close>; \<open>speakText\<close> is awaited by
  \<open>processAndDisplayAIResponse\<close> or by \<open>endInterview\<close>.
\<close>

datatype caller = FromStart | FromSend

datatype kont = KProcess reply caller | KEnd

datatype task =
  AwaitStart
| AwaitChat
| AwaitSpeakFetch kont
| AwaitAudioEnd kont

record state =
  interviewId :: "int option"
  isAIReplying :: bool
  recognition :: bool
  recActive :: bool
  userName :: string
  userExperience :: string
  userInput :: string
  userInputDisabled :: bool
  sendBtnDisabled :: bool
  speechBtnDisabled :: bool
  speechBtnLabel :: label
  statusText :: string
  chatbox :: "(sender \<times> string) list"
  initialSetupDisplay :: string
  interviewPanelDisplay :: string
  downloadDisplay :: string
  location :: "string option"
  tasks :: "(nat \<times> task) list"
  nextId :: nat
  log :: "effect list"

datatype event =
  TypeName string
| TypeExperience string
| TypeInput string
| StartClick
| SendClick
| KeyPress string
| SpeechClick
| DownloadClick
| RecOnStart
| RecOnEnd
| RecOnResult string
| RecOnError string
| StartReplied nat reply
| StartFailed nat
| ChatReplied nat reply
| ChatFailed nat
| SpeakFetched nat bool
| SpeakFailed nat
| AudioEnded nat

subsection \<open>String helpers of the platform\<close>

text \<open>\<open>String.prototype.trim\<close>: white space and line terminators, on both ends.\<close>

definition is_ws :: "char \<Rightarrow> bool" where
  "is_ws c = (of_char c \<in> {9, 10, 11, 12, 13, 32, 160 :: nat})"

definition trim :: "string \<Rightarrow> string" where
  "trim xs = rev (dropWhile is_ws (rev (dropWhile is_ws xs)))"

text \<open>Template-literal conversion of an integer, of \<open>null\<close> and of \<open>undefined\<close>.\<close>

fun show_nat :: "nat \<Rightarrow> string" where
  "show_nat n =
     (if n < 10 then [char_of (48 + n)]
      else show_nat (n div 10) @ [char_of (48 + n mod 10)])"

declare show_nat.simps [simp del]

definition show_int :: "int \<Rightarrow> string" where
  "show_int i = (if i < 0 then CHR ''-'' # show_nat (nat (- i)) else show_nat (nat i))"

definition show_id :: "int option \<Rightarrow> string" where
  "show_id v = (case v of None \<Rightarrow> ''null'' | Some i \<Rightarrow> show_int i)"

definition show_text :: "string option \<Rightarrow> string" where
  "show_text v = (case v of None \<Rightarrow> ''undefined'' | Some t \<Rightarrow> t)"

subsection \<open>Primitive actions\<close>

definition emit :: "effect \<Rightarrow> state \<Rightarrow> state" where
  "emit e s = s\<lparr>log := log s @ [e]\<rparr>"

definition alert :: "string \<Rightarrow> state \<Rightarrow> state" where
  "alert m s = emit (Alert m) s"

definition console_error :: "string \<Rightarrow> state \<Rightarrow> state" where
  "console_error m s = emit (ConsoleError m) s"

text \<open>
  \<open>fetch\<close> sends the request and suspends the caller; the answer comes back under a
  fresh number.
\<close>

definition fetch :: "request \<Rightarrow> task \<Rightarrow> state \<Rightarrow> state" where
  "fetch r t s =
     s\<lparr>tasks := tasks s @ [(nextId s, t)], nextId := Suc (nextId s),
       log := log s @ [Fetch r]\<rparr>"

definition finish :: "nat \<Rightarrow> state \<Rightarrow> state" where
  "finish i s = s\<lparr>tasks := filter (\<lambda>p. fst p \<noteq> i) (tasks s)\<rparr>"

definition suspend :: "nat \<Rightarrow> task \<Rightarrow> state \<Rightarrow> state" where
  "suspend i t s = s\<lparr>tasks := tasks s @ [(i, t)]\<rparr>"

text \<open>
  \<open>recognition.start()\<close> throws when recognition is already running, which it is
  from \<open>start()\<close> to the \<open>end\<close> event (the handler of the speech button catches
  that). \<open>recognition.stop()\<close> asks the recogniser to finish; the \<open>end\<close> event
  follows later.
\<close>

definition recognition_stop :: "state \<Rightarrow> state" where
  "recognition_stop s = emit RecStop s"

definition recognition_start :: "state \<Rightarrow> state" where
  "recognition_start s = emit RecStart (s\<lparr>recActive := True\<rparr>)"

subsection \<open>Core functions\<close>

definition addMessage :: "string \<Rightarrow> sender \<Rightarrow> state \<Rightarrow> state" where
  "addMessage text sndr s =
     s\<lparr>chatbox := chatbox s @ [(sndr, text)], log := log s @ [Appended sndr text]\<rparr>"

definition setControlsState :: "bool \<Rightarrow> state \<Rightarrow> state" where
  "setControlsState disabled s =
     (let s1 = s\<lparr>isAIReplying := disabled, userInputDisabled := disabled,
                  sendBtnDisabled := disabled, speechBtnDisabled := disabled,
                  statusText := (if disabled then ''Status: AI is replying...''
                                 else ''Status: Idle''),
                  log := log s @ [ControlsSet disabled]\<rparr>
      in if recognition s1 \<and> disabled then recognition_stop s1 else s1)"

text \<open>\<open>speakText\<close> up to its first \<open>await\<close>; \<open>k\<close> is what waits for it.\<close>

definition speakText :: "string \<Rightarrow> kont \<Rightarrow> state \<Rightarrow> state" where
  "speakText text k s = fetch (SpeakReq text) (AwaitSpeakFetch k) s"

definition processAndDisplayAIResponse :: "reply \<Rightarrow> caller \<Rightarrow> state \<Rightarrow> state" where
  "processAndDisplayAIResponse d c s =
     speakText (response d) (KProcess d c) (addMessage (response d) AI s)"

definition evaluation_text :: "string option \<Rightarrow> string" where
  "evaluation_text fe = ''Interview Over. Final Evaluation: '' @ show_text fe"

definition endInterview :: "string option \<Rightarrow> state \<Rightarrow> state" where
  "endInterview fe s =
     speakText (evaluation_text fe) KEnd (addMessage (evaluation_text fe) AI s)"

text \<open>The \<open>finally\<close> block of \<open>sendMessage\<close>.\<close>

definition send_finally :: "state \<Rightarrow> state" where
  "send_finally s =
     (if downloadDisplay s = [] \<or> downloadDisplay s = ''none''
      then setControlsState False s else s)"

text \<open>
  What runs when the promise of \<open>speakText\<close> resolves. \<open>endInterview\<close> is called
  without \<open>await\<close>: it runs to its own \<open>speakText\<close> and the caller goes on at once.
\<close>

definition resume :: "kont \<Rightarrow> state \<Rightarrow> state" where
  "resume k s =
     (case k of
        KEnd \<Rightarrow> (setControlsState True s)\<lparr>downloadDisplay := ''block''\<rparr>
      | KProcess d c \<Rightarrow>
          (let s1 = (if interview_over d then endInterview (final_evaluation d) s else s)
           in case c of
                FromStart \<Rightarrow> setControlsState False s1
              | FromSend \<Rightarrow> send_finally s1))"

definition sendMessage :: "state \<Rightarrow> state" where
  "sendMessage s =
     (let userText = trim (userInput s)
      in if userText = [] \<or> isAIReplying s then s
         else fetch (ChatReq (interviewId s) userText) AwaitChat
                (setControlsState True
                  (emit (InputSet [])
                    ((addMessage userText User s)\<lparr>userInput := []\<rparr>))))"

definition chat_replied :: "reply \<Rightarrow> state \<Rightarrow> state" where
  "chat_replied d s = processAndDisplayAIResponse d FromSend s"

definition chat_failed :: "state \<Rightarrow> state" where
  "chat_failed s =
     send_finally
       (addMessage ''Sorry, an error occurred. Please try again.'' AI
         (console_error ''Error sending message:'' s))"

subsection \<open>Event listeners\<close>

definition startBtn_click :: "state \<Rightarrow> state" where
  "startBtn_click s =
     (let name = trim (userName s); experience = trim (userExperience s)
      in if name = [] \<or> experience = []
         then alert ''Please enter your name and experience.'' s
         else fetch (StartReq name experience) AwaitStart s)"

definition start_replied :: "reply \<Rightarrow> state \<Rightarrow> state" where
  "start_replied d s =
     processAndDisplayAIResponse d FromStart
       (setControlsState True
         (s\<lparr>interviewId := Some (interview_id d),
            initialSetupDisplay := ''none'',
            interviewPanelDisplay := ''block''\<rparr>))"

definition start_failed :: "state \<Rightarrow> state" where
  "start_failed s =
     alert ''Could not start interview. Check console for details.''
       (console_error ''Error starting interview:'' s)"

definition speechBtn_click :: "state \<Rightarrow> state" where
  "speechBtn_click s =
     (if \<not> recognition s \<or> isAIReplying s then s
      else if recActive s then recognition_stop s
      else recognition_start s)"

definition downloadBtn_click :: "state \<Rightarrow> state" where
  "downloadBtn_click s =
     (let url = ''/api/report/'' @ show_id (interviewId s)
      in emit (Navigate url) (s\<lparr>location := Some url\<rparr>))"

definition recognition_onstart :: "state \<Rightarrow> state" where
  "recognition_onstart s =
     s\<lparr>statusText := ''Status: Listening...'', speechBtnLabel := StopLabel\<rparr>"

definition recognition_onend :: "state \<Rightarrow> state" where
  "recognition_onend s =
     s\<lparr>statusText := ''Status: Idle'', speechBtnLabel := SpeakLabel, recActive := False\<rparr>"

definition recognition_onresult :: "string \<Rightarrow> state \<Rightarrow> state" where
  "recognition_onresult transcript s =
     sendMessage (emit (InputSet transcript) (s\<lparr>userInput := transcript\<rparr>))"

definition recognition_onerror :: "string \<Rightarrow> state \<Rightarrow> state" where
  "recognition_onerror err s = s\<lparr>statusText := ''Error: '' @ err\<rparr>"

text \<open>The \<open>catch\<close> block of \<open>speakText\<close>, after which its promise is resolved.\<close>

definition speak_caught :: "kont \<Rightarrow> state \<Rightarrow> state" where
  "speak_caught k s = resume k (console_error ''Speech synthesis error:'' s)"

subsection \<open>The page\<close>

definition init :: "bool \<Rightarrow> state" where
  "init supported =
     \<lparr>interviewId = None, isAIReplying = False, recognition = supported,
      recActive = False, userName = [], userExperience = [], userInput = [],
      userInputDisabled = False, sendBtnDisabled = False,
      speechBtnDisabled = (\<not> supported), speechBtnLabel = SpeakLabel,
      statusText = (if supported then []
                    else ''Status: Speech recognition not supported in this browser.''),
      chatbox = [], initialSetupDisplay = [], interviewPanelDisplay = [],
      downloadDisplay = [], location = None, tasks = [], nextId = 0, log = []\<rparr>"

fun step :: "event \<Rightarrow> state \<Rightarrow> state" where
  "step (TypeName v) s = s\<lparr>userName := v\<rparr>"
| "step (TypeExperience v) s = s\<lparr>userExperience := v\<rparr>"
| "step (TypeInput v) s = s\<lparr>userInput := v\<rparr>"
| "step StartClick s = startBtn_click s"
| "step SendClick s = sendMessage s"
| "step (KeyPress k) s = (if k = ''Enter'' then sendMessage s else s)"
| "step SpeechClick s = speechBtn_click s"
| "step DownloadClick s = downloadBtn_click s"
| "step RecOnStart s = recognition_onstart s"
| "step RecOnEnd s = recognition_onend s"
| "step (RecOnResult t) s = recognition_onresult t s"
| "step (RecOnError e) s = recognition_onerror e s"
| "step (StartReplied i d) s =
     (case map_of (tasks s) i of
        Some AwaitStart \<Rightarrow> start_replied d (finish i s)
      | _ \<Rightarrow> s)"
| "step (StartFailed i) s =
     (case map_of (tasks s) i of
        Some AwaitStart \<Rightarrow> start_failed (finish i s)
      | _ \<Rightarrow> s)"
| "step (ChatReplied i d) s =
     (case map_of (tasks s) i of
        Some AwaitChat \<Rightarrow> chat_replied d (finish i s)
      | _ \<Rightarrow> s)"
| "step (ChatFailed i) s =
     (case map_of (tasks s) i of
        Some AwaitChat \<Rightarrow> chat_failed (finish i s)
      | _ \<Rightarrow> s)"
| "step (SpeakFetched i ok) s =
     (case map_of (tasks s) i of
        Some (AwaitSpeakFetch k) \<Rightarrow>
          (if ok then suspend i (AwaitAudioEnd k) (emit AudioPlay (finish i s))
           else speak_caught k (finish i s))
      | _ \<Rightarrow> s)"
| "step (SpeakFailed i) s =
     (case map_of (tasks s) i of
        Some (AwaitSpeakFetch k) \<Rightarrow> speak_caught k (finish i s)
      | _ \<Rightarrow> s)"
| "step (AudioEnded i) s =
     (case map_of (tasks s) i of
        Some (AwaitAudioEnd k) \<Rightarrow> resume k (finish i s)
      | _ \<Rightarrow> s)"

definition run :: "event list \<Rightarrow> state \<Rightarrow> state" where
  "run es s = foldl (\<lambda>s e. step e s) s es"

subsection \<open>Observations\<close>

text \<open>
  Which handler a suspended call belongs to: the start handler, \<open>sendMessage\<close>, or
  neither (\<open>endInterview\<close> is not awaited by anyone).
\<close>

fun handler_of :: "task \<Rightarrow> caller option" where
  "handler_of AwaitStart = Some FromStart"
| "handler_of AwaitChat = Some FromSend"
| "handler_of (AwaitSpeakFetch (KProcess d c)) = Some c"
| "handler_of (AwaitSpeakFetch KEnd) = None"
| "handler_of (AwaitAudioEnd (KProcess d c)) = Some c"
| "handler_of (AwaitAudioEnd KEnd) = None"

definition waiting :: "caller \<Rightarrow> (nat \<times> task) list \<Rightarrow> nat" where
  "waiting c ts = length (filter (\<lambda>p. handler_of (snd p) = Some c) ts)"



text \<open>
  No start handler is suspended, and a suspended \<open>sendMessage\<close> (there is at most one)
  has \<open>isAIReplying\<close> set.
\<close>

definition guarded :: "state \<Rightarrow> bool" where
  "guarded s =
     (waiting FromStart (tasks s) = 0
      \<and> waiting FromSend (tasks s) \<le> (if isAIReplying s then 1 else 0))"

definition controls_disabled :: "state \<Rightarrow> bool" where
  "controls_disabled s =
     (isAIReplying s \<and> userInputDisabled s \<and> sendBtnDisabled s \<and> speechBtnDisabled s)"

definition controls_enabled :: "state \<Rightarrow> bool" where
  "controls_enabled s =
     (\<not> isAIReplying s \<and> \<not> userInputDisabled s \<and> \<not> sendBtnDisabled s
      \<and> \<not> speechBtnDisabled s)"






definition user_turns :: "state \<Rightarrow> string list" where
  "user_turns s = map snd (filter (\<lambda>p. fst p = User) (chatbox s))"

subsection \<open>Example sessions\<close>

definition reply_more :: reply where
  "reply_more =
     \<lparr>interview_id = 42, response = ''Tell me about recursion.'',
      interview_over = False, final_evaluation = None\<rparr>"

definition reply_over :: reply where
  "reply_over =
     \<lparr>interview_id = 42, response = ''Good.'',
      interview_over = True, final_evaluation = Some ''Pass''\<rparr>"

definition reply_late :: reply where
  "reply_late =
     \<lparr>interview_id = 43, response = ''Tell me about recursion.'',
      interview_over = False, final_evaluation = None\<rparr>"

definition fill_form :: "event list" where
  "fill_form = [TypeName ''Ada'', TypeExperience ''5 years'']"

text \<open>The start request is out.\<close>

definition starting_page :: state where
  "starting_page = run (fill_form @ [StartClick]) (init True)"

text \<open>The first question is being spoken.\<close>

definition speaking_page :: state where
  "speaking_page = run [StartReplied 0 reply_more] starting_page"

text \<open>The first question has been spoken; the user may answer.\<close>

definition active_page :: state where
  "active_page = run [SpeakFetched 1 True, AudioEnded 1] speaking_page"

text \<open>The user has answered; the chat request is out.\<close>

definition awaiting_page :: state where
  "awaiting_page =
     run [TypeInput ''It is a function calling itself.'', SendClick] active_page"


text \<open>
  Two clicks on the start button; the first answer ends the interview at once; the
  evaluation has been spoken and \<open>endInterview\<close> has run to its end. The second
  start request is still out.
\<close>

definition terminated_page :: state where
  "terminated_page =
     run (fill_form @ [StartClick, StartClick, StartReplied 0 reply_over,
            SpeakFetched 2 True, AudioEnded 2, SpeakFetched 3 True, AudioEnded 3])
       (init True)"


text \<open>
  One click on the start button; the first answer ends the interview; its text has
  been spoken, \<open>endInterview\<close> has been called and the evaluation is being spoken.
\<close>

definition evaluation_playing :: state where
  "evaluation_playing =
     run (fill_form @ [StartClick, StartReplied 0 reply_over, SpeakFetched 1 True,
            AudioEnded 1, SpeakFetched 2 True])
       (init True)"

text \<open>The answer to the second start request arrives and is spoken.\<close>

definition late_start :: "event list" where
  "late_start = [StartReplied 1 reply_late, SpeakFetched 4 True, AudioEnded 4]"

section \<open>Properties\<close>

lemmas prim_defs = emit_def alert_def console_error_def fetch_def finish_def suspend_def
  recognition_stop_def recognition_start_def addMessage_def setControlsState_def
  speakText_def

lemmas flow_defs = processAndDisplayAIResponse_def endInterview_def send_finally_def

lemmas handler_defs = startBtn_click_def speechBtn_click_def downloadBtn_click_def
  recognition_onstart_def recognition_onend_def recognition_onresult_def
  recognition_onerror_def start_failed_def start_replied_def chat_replied_def
  chat_failed_def speak_caught_def sendMessage_def resume_def

subsection \<open>Trimming\<close>

lemma trim_blank: "(\<forall>c\<in>set xs. is_ws c) \<Longrightarrow> trim xs = []"
  by (auto simp: trim_def dest: set_dropWhileD)

lemma trim_Nil_iff: "trim xs = [] \<longleftrightarrow> (\<forall>c\<in>set xs. is_ws c)"
proof
  assume e: "trim xs = []"
  have "dropWhile is_ws xs = []"
  proof (rule ccontr)
    assume n: "dropWhile is_ws xs \<noteq> []"
    then have "\<not> is_ws (hd (dropWhile is_ws xs))" by (rule hd_dropWhile)
    moreover have "hd (dropWhile is_ws xs) \<in> set (dropWhile is_ws xs)" using n by simp
    ultimately show False using e by (auto simp: trim_def)
  qed
  then show "\<forall>c\<in>set xs. is_ws c" by (simp add: dropWhile_eq_Nil_conv)
qed (rule trim_blank)

subsection \<open>Runs and suspended calls\<close>

lemma run_Nil [simp]: "run [] s = s"
  by (simp add: run_def)

lemma run_Cons [simp]: "run (e # es) s = run es (step e s)"
  by (simp add: run_def)

lemma run_append: "run (es @ fs) s = run fs (run es s)"
  by (simp add: run_def)


lemma waiting_Nil [simp]: "waiting c [] = 0"
  by (simp add: waiting_def)

lemma waiting_append [simp]: "waiting c (ts @ us) = waiting c ts + waiting c us"
  by (simp add: waiting_def)

lemma waiting_single [simp]:
  "waiting c [(i, t)] = (if handler_of t = Some c then 1 else 0)"
  by (simp add: waiting_def)

lemma waiting_finish_le: "waiting c (filter (\<lambda>p. fst p \<noteq> i) ts) \<le> waiting c ts"
  by (induction ts) (auto simp: waiting_def)

lemma waiting_finish_less:
  "map_of ts i = Some t \<Longrightarrow> handler_of t = Some c \<Longrightarrow>
   waiting c (filter (\<lambda>p. fst p \<noteq> i) ts) < waiting c ts"
proof (induction ts)
  case Nil
  then show ?case by simp
next
  case (Cons p ts)
  show ?case
  proof (cases "fst p = i")
    case True
    with Cons.prems have "handler_of (snd p) = Some c" by (cases p) auto
    with True waiting_finish_le [of c i ts] show ?thesis
      by (simp add: waiting_def)
  next
    case False
    with Cons.prems have "map_of ts i = Some t" by (cases p) auto
    with Cons.IH Cons.prems(2) False show ?thesis by (simp add: waiting_def)
  qed
qed

lemma waiting_zero_lookup:
  "waiting c ts = 0 \<Longrightarrow> map_of ts i = Some t \<Longrightarrow> handler_of t \<noteq> Some c"
  using waiting_finish_less [of ts i t c] by auto



lemma tasks_setControlsState [simp]: "tasks (setControlsState b s) = tasks s"
  by (simp add: prim_defs Let_def)

lemma isAIReplying_setControlsState [simp]: "isAIReplying (setControlsState b s) = b"
  by (simp add: prim_defs Let_def)

subsection \<open>Blank submissions\<close>

text \<open>
  C8: a Send-turn invocation whose input text is empty or made of white space only does
  nothing: the state after \<open>sendMessage\<close> is the state before, so no Turn is appended
  and no chat request is issued, whether the invocation comes from the send button or
  from the Enter key.
\<close>

theorem send_blank_is_noop:
  assumes "\<forall>c\<in>set (userInput s). is_ws c"
  shows "sendMessage s = s \<and> step SendClick s = s \<and> step (KeyPress ''Enter'') s = s"
  using assms by (simp add: sendMessage_def trim_blank)

theorem send_blank_is_noop_witness:
  "list_all is_ws (userInput ((init True)\<lparr>userInput := ''  ''\<rparr>))
   \<and> sendMessage ((init True)\<lparr>userInput := ''  ''\<rparr>) = (init True)\<lparr>userInput := ''  ''\<rparr>
   \<and> chatbox (step SendClick ((init True)\<lparr>userInput := ''  ''\<rparr>)) = []
   \<and> tasks (step SendClick ((init True)\<lparr>userInput := ''  ''\<rparr>)) = []"
proof -
  have h: "\<forall>c\<in>set (userInput ((init True)\<lparr>userInput := ''  ''\<rparr>)). is_ws c"
    by (simp add: is_ws_def)
  from send_blank_is_noop [OF h] h show ?thesis
    by (simp add: init_def list_all_iff)
qed

subsection \<open>Download\<close>



subsection \<open>Speech input\<close>

text \<open>
  C9: a click on the speech button while \<open>isAIReplying\<close> is true (awaiting a response,
  or terminated) or when the browser offers no recognition changes nothing, so
  recognition is not started. A click while recognition is already running, with the
  controls enabled, raises no error: the handler calls \<open>recognition.stop()\<close> on the
  running recognition and does nothing else.
\<close>

theorem speech_click_guard:
  "(\<not> recognition s \<or> isAIReplying s \<longrightarrow> step SpeechClick s = s)
   \<and> (recognition s \<and> \<not> isAIReplying s \<and> recActive s \<longrightarrow>
        step SpeechClick s = s\<lparr>log := log s @ [RecStop]\<rparr>)"
  by (simp add: speechBtn_click_def recognition_stop_def emit_def)

theorem speech_click_guard_witness:
  "isAIReplying (setControlsState True (init True))
   \<and> step SpeechClick (setControlsState True (init True)) = setControlsState True (init True)
   \<and> \<not> recognition (init False)
   \<and> step SpeechClick (init False) = init False
   \<and> recActive (step SpeechClick (init True))
   \<and> log (step SpeechClick (step SpeechClick (init True))) = [RecStart, RecStop]
   \<and> \<not> recActive (step RecOnEnd (step SpeechClick (step SpeechClick (init True))))"
  using speech_click_guard [of "setControlsState True (init True)"]
    speech_click_guard [of "init False"]
    speech_click_guard [of "step SpeechClick (init True)"]
  by (simp add: init_def setControlsState_def recognition_stop_def emit_def
      speechBtn_click_def recognition_start_def recognition_onend_def)

subsection \<open>Sending a turn\<close>



subsection \<open>A failed chat request\<close>

text \<open>
  C6: when the chat request of a session that is not terminated (the download button
  is not shown) fails, exactly one AI Turn with the generic error text is appended,
  the controls are enabled again, the session stays not terminated, and nothing is
  sent again: the log gains no request and the failed call is gone.
\<close>

theorem chat_failure_recovers:
  assumes "map_of (tasks s) i = Some AwaitChat"
    and "downloadDisplay s = [] \<or> downloadDisplay s = ''none''"
  shows "chatbox (step (ChatFailed i) s)
           = chatbox s @ [(AI, ''Sorry, an error occurred. Please try again.'')]
       \<and> log (step (ChatFailed i) s)
           = log s @ [ConsoleError ''Error sending message:'',
                      Appended AI ''Sorry, an error occurred. Please try again.'',
                      ControlsSet False]
       \<and> controls_enabled (step (ChatFailed i) s)
       \<and> downloadDisplay (step (ChatFailed i) s) = downloadDisplay s
       \<and> tasks (step (ChatFailed i) s) = filter (\<lambda>p. fst p \<noteq> i) (tasks s)"
  using assms
  by (auto simp add: controls_enabled_def chat_failed_def prim_defs flow_defs Let_def)

theorem chat_failure_recovers_witness:
  "map_of (tasks awaiting_page) 2 = Some AwaitChat
   \<and> downloadDisplay awaiting_page = []
   \<and> controls_disabled awaiting_page
   \<and> chatbox (step (ChatFailed 2) awaiting_page)
       = chatbox awaiting_page @ [(AI, ''Sorry, an error occurred. Please try again.'')]
   \<and> controls_enabled (step (ChatFailed 2) awaiting_page)
   \<and> downloadDisplay (step (ChatFailed 2) awaiting_page) = downloadDisplay awaiting_page
   \<and> tasks (step (ChatFailed 2) awaiting_page) = []"
proof -
  have a: "map_of (tasks awaiting_page) 2 = Some AwaitChat" by code_simp
  have b: "downloadDisplay awaiting_page = []" by code_simp
  have c: "controls_disabled awaiting_page" by code_simp
  have d: "tasks (step (ChatFailed 2) awaiting_page) = []" by code_simp
  from b have b': "downloadDisplay awaiting_page = [] \<or> downloadDisplay awaiting_page = ''none''"
    by simp
  note r = chat_failure_recovers [OF a b']
  from a b c d r show ?thesis by blast
qed

subsection \<open>Speech synthesis failure\<close>





subsection \<open>The interview id\<close>





subsection \<open>Processing an AI response\<close>






subsection \<open>The duplicate-submission guard\<close>


lemma guarded_sendMessage: "guarded s \<Longrightarrow> guarded (sendMessage s)"
  by (auto simp: guarded_def sendMessage_def Let_def fetch_def addMessage_def emit_def)

lemma guarded_resume:
  assumes "guarded s" and "map_of (tasks s) i = Some t"
    and "t = AwaitSpeakFetch k \<or> t = AwaitAudioEnd k"
  shows "guarded (resume k (s\<lparr>tasks := filter (\<lambda>p. fst p \<noteq> i) (tasks s), log := l\<rparr>))"
proof (cases k)
  case KEnd
  with assms(1) waiting_finish_le [of FromStart i "tasks s"]
    waiting_finish_le [of FromSend i "tasks s"]
  show ?thesis
    by (auto simp: guarded_def resume_def split: if_splits)
next
  case (KProcess d c)
  with assms(3) have h: "handler_of t = Some c" by auto
  from assms(1) have z: "waiting FromStart (tasks s) = 0" by (simp add: guarded_def)
  from waiting_zero_lookup [OF z assms(2)] h have c: "c = FromSend" by (cases c) auto
  from waiting_finish_less [OF assms(2) h] c assms(1)
  have s0: "waiting FromSend (filter (\<lambda>p. fst p \<noteq> i) (tasks s)) = 0"
    by (auto simp: guarded_def split: if_splits)
  from z waiting_finish_le [of FromStart i "tasks s"]
  have z0: "waiting FromStart (filter (\<lambda>p. fst p \<noteq> i) (tasks s)) = 0" by simp
  show ?thesis using KProcess c s0 z0
    by (simp add: guarded_def resume_def flow_defs fetch_def speakText_def addMessage_def Let_def)
qed

lemma guarded_step:
  assumes "guarded s" and "e \<noteq> StartClick"
  shows "guarded (step e s)"
proof (cases e)
  case (StartReplied i d)
  from assms(1) have z: "waiting FromStart (tasks s) = 0" by (simp add: guarded_def)
  have "map_of (tasks s) i \<noteq> Some AwaitStart"
    using waiting_zero_lookup [OF z, of i AwaitStart] by auto
  with StartReplied assms(1) show ?thesis by (simp split: option.split task.split)
next
  case (StartFailed i)
  from assms(1) have z: "waiting FromStart (tasks s) = 0" by (simp add: guarded_def)
  have "map_of (tasks s) i \<noteq> Some AwaitStart"
    using waiting_zero_lookup [OF z, of i AwaitStart] by auto
  with StartFailed assms(1) show ?thesis by (simp split: option.split task.split)
next
  case (ChatReplied i d)
  show ?thesis
  proof (cases "map_of (tasks s) i = Some AwaitChat")
    case True
    from waiting_finish_less [OF True, of FromSend] assms(1)
    have "waiting FromSend (filter (\<lambda>p. fst p \<noteq> i) (tasks s)) = 0 \<and> isAIReplying s"
      by (auto simp: guarded_def split: if_splits)
    moreover from assms(1) waiting_finish_le [of FromStart i "tasks s"]
    have "waiting FromStart (filter (\<lambda>p. fst p \<noteq> i) (tasks s)) = 0"
      by (simp add: guarded_def)
    ultimately show ?thesis using ChatReplied True
      by (simp add: guarded_def chat_replied_def flow_defs fetch_def speakText_def
          addMessage_def finish_def)
  next
    case False
    with ChatReplied assms(1) show ?thesis by (simp split: option.split task.split)
  qed
next
  case (ChatFailed i)
  show ?thesis
  proof (cases "map_of (tasks s) i = Some AwaitChat")
    case True
    from waiting_finish_less [OF True, of FromSend] assms(1)
    have "waiting FromSend (filter (\<lambda>p. fst p \<noteq> i) (tasks s)) = 0"
      by (auto simp: guarded_def split: if_splits)
    moreover from assms(1) waiting_finish_le [of FromStart i "tasks s"]
    have "waiting FromStart (filter (\<lambda>p. fst p \<noteq> i) (tasks s)) = 0"
      by (simp add: guarded_def)
    ultimately show ?thesis using ChatFailed True
      by (simp add: guarded_def chat_failed_def flow_defs addMessage_def
          console_error_def emit_def finish_def)
  next
    case False
    with ChatFailed assms(1) show ?thesis by (simp split: option.split task.split)
  qed
next
  case (SpeakFetched i ok)
  show ?thesis
  proof (cases "map_of (tasks s) i")
    case None
    with SpeakFetched assms(1) show ?thesis by simp
  next
    case (Some t)
    show ?thesis
    proof (cases t)
      case (AwaitSpeakFetch k)
      show ?thesis
      proof (cases ok)
        case True
        have le: "waiting c (filter (\<lambda>p. fst p \<noteq> i) (tasks s)) + waiting c [(i, AwaitAudioEnd k)]
                    \<le> waiting c (tasks s)" for c
        proof (cases "handler_of (AwaitSpeakFetch k) = Some c")
          case True
          from waiting_finish_less [OF Some [unfolded AwaitSpeakFetch] True]
          show ?thesis by simp
        next
          case False
          then have "handler_of (AwaitAudioEnd k) \<noteq> Some c" by (cases k) auto
          with waiting_finish_le [of c i "tasks s"] show ?thesis by simp
        qed
        from le [of FromStart] le [of FromSend] assms(1)
        show ?thesis using SpeakFetched Some AwaitSpeakFetch True
          by (auto simp: guarded_def finish_def suspend_def emit_def split: if_splits)
      next
        case False
        with guarded_resume [OF assms(1) Some, where k = k
            and l = "log s @ [ConsoleError ''Speech synthesis error:'']"]
          SpeakFetched Some AwaitSpeakFetch
        show ?thesis
          by (simp add: speak_caught_def console_error_def emit_def finish_def)
      qed
    qed (use SpeakFetched Some assms(1) in simp_all)
  qed
next
  case (SpeakFailed i)
  show ?thesis
  proof (cases "map_of (tasks s) i")
    case None
    with SpeakFailed assms(1) show ?thesis by simp
  next
    case (Some t)
    show ?thesis
    proof (cases t)
      case (AwaitSpeakFetch k)
      with guarded_resume [OF assms(1) Some, where k = k
          and l = "log s @ [ConsoleError ''Speech synthesis error:'']"]
        SpeakFailed Some
      show ?thesis
        by (simp add: speak_caught_def console_error_def emit_def finish_def)
    qed (use SpeakFailed Some assms(1) in simp_all)
  qed
next
  case (AudioEnded i)
  show ?thesis
  proof (cases "map_of (tasks s) i")
    case None
    with AudioEnded assms(1) show ?thesis by simp
  next
    case (Some t)
    show ?thesis
    proof (cases t)
      case (AwaitAudioEnd k)
      with guarded_resume [OF assms(1) Some, where k = k and l = "log s"] AudioEnded Some
      show ?thesis
        by (simp add: finish_def)
    qed (use AudioEnded Some assms(1) in simp_all)
  qed
qed (use assms guarded_sendMessage [of s]
      guarded_sendMessage [of "emit (InputSet t) (s\<lparr>userInput := t\<rparr>)" for t] in
     \<open>auto simp: guarded_def speechBtn_click_def downloadBtn_click_def
        recognition_onstart_def recognition_onend_def recognition_onresult_def
        recognition_onerror_def recognition_stop_def recognition_start_def emit_def Let_def\<close>)





subsection \<open>After the termination\<close>

lemma shown_stays: "downloadDisplay s = ''block'' \<Longrightarrow> downloadDisplay (step e s) = ''block''"
  by (cases e)
    (auto simp: handler_defs prim_defs flow_defs Let_def
      split: option.splits task.splits kont.splits caller.splits)

lemma user_turns_step: "isAIReplying s \<Longrightarrow> user_turns (step e s) = user_turns s"
  by (cases e)
    (auto simp: user_turns_def handler_defs prim_defs flow_defs Let_def
      split: option.splits task.splits kont.splits caller.splits)

lemma disabled_step:
  assumes "controls_disabled s" and "downloadDisplay s = ''block''"
    and "waiting FromStart (tasks s) = 0"
  shows "controls_disabled (step e s)"
proof -
  have fetching: "map_of (tasks s) i \<noteq> Some (AwaitSpeakFetch (KProcess d FromStart))"
    for i d
    using waiting_zero_lookup [OF assms(3), of i "AwaitSpeakFetch (KProcess d FromStart)"]
    by auto
  have playing: "map_of (tasks s) i \<noteq> Some (AwaitAudioEnd (KProcess d FromStart))"
    for i d
    using waiting_zero_lookup [OF assms(3), of i "AwaitAudioEnd (KProcess d FromStart)"]
    by auto
  show ?thesis
    using assms(1,2) fetching playing
    by (cases e)
      (auto simp: controls_disabled_def handler_defs prim_defs flow_defs Let_def
        split: option.splits task.splits kont.splits caller.splits)
qed

text \<open>
  With no start handler pending and no further click on the start button, the
  termination is final: once \<open>endInterview\<close> has shown the download button and
  disabled the controls, they stay disabled and no user Turn is appended.
\<close>

lemma terminated_stays:
  assumes "guarded s" and "controls_disabled s" and "downloadDisplay s = ''block''"
    and "StartClick \<notin> set es"
  shows "controls_disabled (run es s) \<and> downloadDisplay (run es s) = ''block''
       \<and> user_turns (run es s) = user_turns s"
  using assms
proof (induction es arbitrary: s)
  case Nil
  then show ?case by simp
next
  case (Cons e es)
  from Cons.prems have ne: "e \<noteq> StartClick" and rest: "StartClick \<notin> set es" by auto
  from Cons.prems(1) have z: "waiting FromStart (tasks s) = 0" by (simp add: guarded_def)
  have g: "guarded (step e s)" using guarded_step [OF Cons.prems(1) ne] .
  have d: "controls_disabled (step e s)" using disabled_step [OF Cons.prems(2,3) z] .
  have b: "downloadDisplay (step e s) = ''block''" using shown_stays [OF Cons.prems(3)] .
  from Cons.prems(2) have "isAIReplying s" by (simp add: controls_disabled_def)
  then have u: "user_turns (step e s) = user_turns s" by (rule user_turns_step)
  from Cons.IH [OF g d b rest] u show ?case by simp
qed

text \<open>
  C1 at failing inputs. First the start button is clicked twice. The first answer ends
  the interview: its text and the evaluation are spoken, \<open>endInterview\<close> runs to its
  end, the download button is shown and every control is disabled. Then the answer
  to the second start request arrives; when it has been spoken, the start handler
  enables the controls again, and the next Send-turn appends a user Turn and issues a
  chat request. Second, with a single click: \<open>endInterview\<close> is called without
  \<open>await\<close>, so while the evaluation is being spoken the start handler has already
  enabled the controls, and a Send-turn appends a user Turn although the backend has
  declared the interview over; the controls are disabled only when the evaluation
  has been spoken.
\<close>

theorem reenabled_after_termination:
  "downloadDisplay terminated_page = ''block''
   \<and> controls_disabled terminated_page
   \<and> downloadDisplay (run late_start terminated_page) = ''block''
   \<and> controls_enabled (run late_start terminated_page)
   \<and> user_turns (run late_start terminated_page) = []
   \<and> user_turns (run (late_start @ [TypeInput ''hi'', SendClick]) terminated_page) = [''hi'']
   \<and> last (log (run (late_start @ [TypeInput ''hi'', SendClick]) terminated_page))
       = Fetch (ChatReq (Some 43) ''hi'')
   \<and> chatbox evaluation_playing
       = [(AI, ''Good.''), (AI, ''Interview Over. Final Evaluation: Pass'')]
   \<and> map snd (tasks evaluation_playing) = [AwaitAudioEnd KEnd]
   \<and> controls_enabled evaluation_playing
   \<and> user_turns (run [TypeInput ''hi'', SendClick] evaluation_playing) = [''hi'']
   \<and> controls_disabled (run [AudioEnded 2] evaluation_playing)
   \<and> downloadDisplay (run [AudioEnded 2] evaluation_playing) = ''block''"
  by code_simp

end
